theory Spec2Isabelle
  imports Main "HOL-Library.Sublist"
begin

section \<open>The component state of the runtime visualizer\<close>

text \<open>
  The component \<open>JsRuntimeVisualizer\<close> keeps seven \<open>useState\<close> cells. They are
  modelled as one record; every setter call of the source is a field update. The
  focus indicator has the string-literal type \<open>"stack" | "microtask" | "callback"\<close>.
\<close>

datatype LookingAt = stack | microtask | callback

record component_state =
  isPlaying :: bool
  step :: nat
  callStack :: "string list"
  microtaskQueue :: "string list"
  callbackQueue :: "string list"
  consoleOutput :: "string list"
  lookingAt :: LookingAt

text \<open>The initial values handed to \<open>useState\<close>.\<close>

definition initialState :: component_state where
  "initialState =
     \<lparr>isPlaying = False, step = 0, callStack = [], microtaskQueue = [],
      callbackQueue = [], consoleOutput = [], lookingAt = stack\<rparr>"

text \<open>\<open>resetState\<close>: seven setter calls, one per cell.\<close>

definition resetState :: "component_state \<Rightarrow> component_state" where
  "resetState s =
     s\<lparr>step := 0, callStack := [], microtaskQueue := [], callbackQueue := [],
       consoleOutput := [], isPlaying := False, lookingAt := stack\<rparr>"

text \<open>The play/pause button: \<open>setIsPlaying(!isPlaying)\<close>.\<close>

definition playPause :: "component_state \<Rightarrow> component_state" where
  "playPause s = s\<lparr>isPlaying := \<not> isPlaying s\<rparr>"

section \<open>The step tables\<close>

text \<open>
  Each entry of \<open>steps\<close> is a closure that calls some of the setters. A setter given a
  value overwrites the cell; a setter given \<open>(prev) => [...prev, x]\<close> appends \<open>x\<close> to
  the cell's current value. The first component of the file has thirteen entries.
\<close>

definition steps_A :: "(component_state \<Rightarrow> component_state) list" where
  \<open>steps_A =
    [ \<lambda>s. s\<lparr>callStack := [''Global Execution Context''], lookingAt := stack\<rparr>,
      \<lambda>s. s\<lparr>callStack := [''console.log("Start")'', ''Global Execution Context''],
            consoleOutput := consoleOutput s @ [''Start''],
            lookingAt := stack\<rparr>,
      \<lambda>s. s\<lparr>callStack := [''Global Execution Context''], lookingAt := stack\<rparr>,
      \<lambda>s. s\<lparr>callbackQueue := callbackQueue s @ [''() => console.log("Timeout")''],
            lookingAt := callback\<rparr>,
      \<lambda>s. s\<lparr>microtaskQueue := microtaskQueue s @ [''() => console.log("Promise")''],
            lookingAt := microtask\<rparr>,
      \<lambda>s. s\<lparr>callStack := [''console.log("End")'', ''Global Execution Context''],
            consoleOutput := consoleOutput s @ [''End''],
            lookingAt := stack\<rparr>,
      \<lambda>s. s\<lparr>callStack := [''Global Execution Context'']\<rparr>,
      \<lambda>s. s\<lparr>callStack := [], lookingAt := microtask\<rparr>,
      \<lambda>s. s\<lparr>callStack := [''Promise callback''],
            microtaskQueue := [],
            consoleOutput := consoleOutput s @ [''Promise''],
            lookingAt := stack\<rparr>,
      \<lambda>s. s\<lparr>callStack := [], lookingAt := callback\<rparr>,
      \<lambda>s. s\<lparr>callStack := [''setTimeout callback''],
            callbackQueue := [],
            consoleOutput := consoleOutput s @ [''Timeout''],
            lookingAt := stack\<rparr>,
      \<lambda>s. s\<lparr>callStack := [], lookingAt := stack\<rparr>,
      \<lambda>s. s\<lparr>callStack := [], lookingAt := stack\<rparr> ]\<close>

text \<open>The second component of the file has twelve entries.\<close>

definition steps_B :: "(component_state \<Rightarrow> component_state) list" where
  \<open>steps_B =
    [ \<lambda>s. s\<lparr>callStack := [''Global Execution Context''], lookingAt := stack\<rparr>,
      \<lambda>s. s\<lparr>callStack := [''console.log("Start")'', ''Global Execution Context''],
            consoleOutput := consoleOutput s @ [''Start''],
            lookingAt := stack\<rparr>,
      \<lambda>s. s\<lparr>callStack := [''Global Execution Context''], lookingAt := stack\<rparr>,
      \<lambda>s. s\<lparr>callbackQueue :=
              callbackQueue s @ [''setTimeout(() => console.log("Timeout"))''],
            lookingAt := callback\<rparr>,
      \<lambda>s. s\<lparr>microtaskQueue :=
              microtaskQueue s @ [''Promise.then(() => console.log("Promise"))''],
            lookingAt := microtask\<rparr>,
      \<lambda>s. s\<lparr>callStack := [''console.log("End")'', ''Global Execution Context''],
            consoleOutput := consoleOutput s @ [''End''],
            lookingAt := stack\<rparr>,
      \<lambda>s. s\<lparr>callStack := [''Global Execution Context''], lookingAt := microtask\<rparr>,
      \<lambda>s. s\<lparr>callStack := [''Promise callback'', ''Global Execution Context''],
            microtaskQueue := [],
            consoleOutput := consoleOutput s @ [''Promise''],
            lookingAt := stack\<rparr>,
      \<lambda>s. s\<lparr>callStack := [''Global Execution Context''], lookingAt := callback\<rparr>,
      \<lambda>s. s\<lparr>callStack := [''setTimeout callback'', ''Global Execution Context''],
            callbackQueue := [],
            consoleOutput := consoleOutput s @ [''Timeout''],
            lookingAt := stack\<rparr>,
      \<lambda>s. s\<lparr>callStack := [''Global Execution Context''], lookingAt := stack\<rparr>,
      \<lambda>s. s\<lparr>callStack := [], lookingAt := stack\<rparr> ]\<close>

section \<open>The timer\<close>

text \<open>
  The body of the \<open>setTimeout\<close> callback, for a table \<open>tbl\<close>:
  \<^verbatim>\<open>if (step < steps.length) { steps[step](); setStep(step + 1); } else { setIsPlaying(false); }\<close>
\<close>

definition timerHandler ::
  "(component_state \<Rightarrow> component_state) list \<Rightarrow> component_state \<Rightarrow> component_state" where
  "timerHandler tbl s =
     (if step s < length tbl then ((tbl ! step s) s)\<lparr>step := step s + 1\<rparr>
      else s\<lparr>isPlaying := False\<rparr>)"

text \<open>
  The effect returns before arming a timer when \<open>isPlaying\<close> is false, so the passing
  of one delay changes the state only while playing.
\<close>

definition tick ::
  "(component_state \<Rightarrow> component_state) list \<Rightarrow> component_state \<Rightarrow> component_state" where
  "tick tbl s = (if \<not> isPlaying s then s else timerHandler tbl s)"

definition tick_A :: "component_state \<Rightarrow> component_state" where
  "tick_A = tick steps_A"

definition tick_B :: "component_state \<Rightarrow> component_state" where
  "tick_B = tick steps_B"

text \<open>Everything that can happen to the component: the delay passes, or a button is pressed.\<close>

datatype signal = Tick | PlayPause | Reset

fun fire ::
  "(component_state \<Rightarrow> component_state) list \<Rightarrow> signal \<Rightarrow> component_state \<Rightarrow> component_state" where
  "fire tbl Tick s = tick tbl s"
| "fire tbl PlayPause s = playPause s"
| "fire tbl Reset s = resetState s"

definition run ::
  "(component_state \<Rightarrow> component_state) list \<Rightarrow> signal list \<Rightarrow> component_state \<Rightarrow> component_state" where
  "run tbl sigs s = fold (fire tbl) sigs s"

text \<open>A cold start: the initial state with the play button pressed once.\<close>

definition coldStart :: component_state where
  "coldStart = playPause initialState"

section \<open>Vocabulary of the properties\<close>

text \<open>
  The state tabulated for index \<open>i\<close>, constructed directly from the table: the initial
  state for index 0, and for index \<open>i + 1\<close> the entry \<open>i\<close> applied to the state of
  index \<open>i\<close>. It follows the specification's wording; the timer above is the code.
\<close>

primrec tabulated ::
  "(component_state \<Rightarrow> component_state) list \<Rightarrow> nat \<Rightarrow> component_state" where
  "tabulated tbl 0 = initialState"
| "tabulated tbl (Suc i) = (tbl ! i) (tabulated tbl i)"

text \<open>A closure that calls neither \<open>setStep\<close> nor \<open>setIsPlaying\<close> and reads neither cell.\<close>

definition keepsPlayer :: "(component_state \<Rightarrow> component_state) \<Rightarrow> bool" where
  "keepsPlayer t \<longleftrightarrow>
     (\<forall>s b k. t (s\<lparr>isPlaying := b, step := k\<rparr>) = (t s)\<lparr>isPlaying := b, step := k\<rparr>)"

text \<open>A state that lies on the table: its cells are those tabulated for its own step index.\<close>

definition onTable :: "(component_state \<Rightarrow> component_state) list \<Rightarrow> component_state \<Rightarrow> bool" where
  "onTable tbl s \<longleftrightarrow>
     step s \<le> length tbl \<and>
     s = (tabulated tbl (step s))\<lparr>isPlaying := isPlaying s, step := step s\<rparr>"

definition withinBounds :: "component_state \<Rightarrow> bool" where
  "withinBounds s \<longleftrightarrow>
     length (microtaskQueue s) \<le> 1 \<and> length (callbackQueue s) \<le> 1 \<and>
     length (callStack s) \<le> 2"

text \<open>The Execution State and the step index of \<open>s'\<close> are those of \<open>s\<close>.\<close>

definition unchangedExecution :: "component_state \<Rightarrow> component_state \<Rightarrow> bool" where
  "unchangedExecution s s' \<longleftrightarrow>
     callStack s' = callStack s \<and> microtaskQueue s' = microtaskQueue s \<and>
     callbackQueue s' = callbackQueue s \<and> consoleOutput s' = consoleOutput s \<and>
     lookingAt s' = lookingAt s \<and> step s' = step s"

text \<open>A closure that leaves the console output alone or appends one fixed string to it.\<close>

definition appendsToConsole :: "(component_state \<Rightarrow> component_state) \<Rightarrow> bool" where
  "appendsToConsole t \<longleftrightarrow>
     (\<forall>s. consoleOutput (t s) = consoleOutput s) \<or>
     (\<exists>x. \<forall>s. consoleOutput (t s) = consoleOutput s @ [x])"

text \<open>
  The shapes a closure of the tables gives to a cell \<open>f\<close>: a value that is the same
  from every prior state, or the prior value; and for the list cells that are appended
  to: the empty list, the prior value followed by one fixed entry, or the prior value.
\<close>

definition writesConstantOrKeeps ::
  "(component_state \<Rightarrow> 'a) \<Rightarrow> (component_state \<Rightarrow> component_state) \<Rightarrow> bool" where
  "writesConstantOrKeeps f t \<longleftrightarrow> (\<exists>v. \<forall>s. f (t s) = v) \<or> (\<forall>s. f (t s) = f s)"

definition clearsAppendsOrKeeps ::
  "(component_state \<Rightarrow> string list) \<Rightarrow> (component_state \<Rightarrow> component_state) \<Rightarrow> bool" where
  "clearsAppendsOrKeeps f t \<longleftrightarrow>
     (\<forall>s. f (t s) = []) \<or> (\<exists>x. \<forall>s. f (t s) = f s @ [x]) \<or> (\<forall>s. f (t s) = f s)"

definition positional :: "(component_state \<Rightarrow> component_state) \<Rightarrow> bool" where
  "positional t \<longleftrightarrow>
     writesConstantOrKeeps callStack t \<and> writesConstantOrKeeps lookingAt t \<and>
     clearsAppendsOrKeeps microtaskQueue t \<and> clearsAppendsOrKeeps callbackQueue t \<and>
     clearsAppendsOrKeeps consoleOutput t"

section \<open>Facts about the tables\<close>

lemma length_steps_A: "length steps_A = 13"
  by (simp add: steps_A_def)

lemma length_steps_B: "length steps_B = 12"
  by (simp add: steps_B_def)

lemma keepsPlayer_steps_A: "list_all keepsPlayer steps_A"
  by (simp add: steps_A_def keepsPlayer_def)

lemma keepsPlayer_steps_B: "list_all keepsPlayer steps_B"
  by (simp add: steps_B_def keepsPlayer_def)

lemma appendsToConsole_steps_A: "list_all appendsToConsole steps_A"
  by (simp add: steps_A_def appendsToConsole_def)

lemma appendsToConsole_steps_B: "list_all appendsToConsole steps_B"
  by (simp add: steps_B_def appendsToConsole_def)

lemma positional_steps_A: "list_all positional steps_A"
  by (simp add: steps_A_def positional_def writesConstantOrKeeps_def clearsAppendsOrKeeps_def)

lemma positional_steps_B: "list_all positional steps_B"
  by (simp add: steps_B_def positional_def writesConstantOrKeeps_def clearsAppendsOrKeeps_def)

section \<open>Facts about the timer\<close>

lemma keepsPlayer_nth:
  "list_all keepsPlayer tbl \<Longrightarrow> i < length tbl \<Longrightarrow>
   (tbl ! i) (s\<lparr>isPlaying := b, step := k\<rparr>) = ((tbl ! i) s)\<lparr>isPlaying := b, step := k\<rparr>"
  by (simp add: list_all_length keepsPlayer_def)

lemma tick_playing_in_range:
  "isPlaying s \<Longrightarrow> step s < length tbl \<Longrightarrow>
   tick tbl s = ((tbl ! step s) s)\<lparr>step := step s + 1\<rparr>"
  by (simp add: tick_def timerHandler_def)

lemma ticks_tabulated:
  assumes "list_all keepsPlayer tbl" and "i \<le> length tbl"
  shows "(tick tbl ^^ i) coldStart = (tabulated tbl i)\<lparr>isPlaying := True, step := i\<rparr>"
  using assms(2)
proof (induction i)
  case 0
  show ?case by (simp add: coldStart_def playPause_def initialState_def)
next
  case (Suc i)
  then have i: "i < length tbl" and IH: "(tick tbl ^^ i) coldStart = (tabulated tbl i)\<lparr>isPlaying := True, step := i\<rparr>"
    by simp_all
  have "(tick tbl ^^ Suc i) coldStart = tick tbl ((tabulated tbl i)\<lparr>isPlaying := True, step := i\<rparr>)"
    by (simp add: IH)
  also have "\<dots> = ((tbl ! i) ((tabulated tbl i)\<lparr>isPlaying := True, step := i\<rparr>))\<lparr>step := i + 1\<rparr>"
    using i by (simp add: tick_playing_in_range)
  also have "\<dots> = (tabulated tbl (Suc i))\<lparr>isPlaying := True, step := Suc i\<rparr>"
    using i assms(1) by (simp add: keepsPlayer_nth)
  finally show ?case .
qed

lemma ticks_A: "i \<le> 13 \<Longrightarrow> (tick_A ^^ i) coldStart = (tabulated steps_A i)\<lparr>isPlaying := True, step := i\<rparr>"
  unfolding tick_A_def by (rule ticks_tabulated) (simp_all add: keepsPlayer_steps_A length_steps_A)

lemma ticks_B: "i \<le> 12 \<Longrightarrow> (tick_B ^^ i) coldStart = (tabulated steps_B i)\<lparr>isPlaying := True, step := i\<rparr>"
  unfolding tick_B_def by (rule ticks_tabulated) (simp_all add: keepsPlayer_steps_B length_steps_B)

lemma keepsPlayer_frame:
  assumes "keepsPlayer t"
  shows "step (t s) = step s" and "isPlaying (t s) = isPlaying s"
proof -
  have "t (s\<lparr>isPlaying := isPlaying s, step := step s\<rparr>) = (t s)\<lparr>isPlaying := isPlaying s, step := step s\<rparr>"
    using assms unfolding keepsPlayer_def by blast
  then have eq: "t s = (t s)\<lparr>isPlaying := isPlaying s, step := step s\<rparr>"
    by simp
  show "step (t s) = step s"
    by (subst eq) simp
  show "isPlaying (t s) = isPlaying s"
    by (subst eq) simp
qed

lemma nth_frame:
  "list_all keepsPlayer tbl \<Longrightarrow> i < length tbl \<Longrightarrow> step ((tbl ! i) s) = step s"
  "list_all keepsPlayer tbl \<Longrightarrow> i < length tbl \<Longrightarrow> isPlaying ((tbl ! i) s) = isPlaying s"
  by (simp_all add: list_all_length keepsPlayer_frame)

lemma tick_not_playing: "\<not> isPlaying s \<Longrightarrow> tick tbl s = s"
  by (simp add: tick_def)

lemma timerHandler_out_of_range:
  "length tbl \<le> step s \<Longrightarrow> timerHandler tbl s = s\<lparr>isPlaying := False\<rparr>"
  by (simp add: timerHandler_def)

lemma tick_out_of_range:
  "length tbl \<le> step s \<Longrightarrow> tick tbl s = s\<lparr>isPlaying := False\<rparr>"
  by (cases "isPlaying s") (simp_all add: tick_def timerHandler_def)

lemma fire_step:
  assumes "list_all keepsPlayer tbl"
  shows "step (fire tbl sg s) =
    (if sg = Tick \<and> isPlaying s \<and> step s < length tbl then step s + 1
     else if sg = Reset then 0 else step s)"
proof (cases sg)
  case Tick
  show ?thesis
  proof (cases "isPlaying s \<and> step s < length tbl")
    case True
    then show ?thesis
      using Tick assms by (simp add: tick_playing_in_range)
  next
    case False
    then show ?thesis
      using Tick by (auto simp: tick_def timerHandler_def)
  qed
next
  case PlayPause
  then show ?thesis by (simp add: playPause_def)
next
  case Reset
  then show ?thesis by (simp add: resetState_def)
qed

lemma run_Nil: "run tbl [] s = s"
  by (simp add: run_def)

lemma run_Cons: "run tbl (sg # sigs) s = run tbl sigs (fire tbl sg s)"
  by (simp add: run_def)

lemma run_append: "run tbl (sigs @ sigs') s = run tbl sigs' (run tbl sigs s)"
  by (simp add: run_def)

lemma fire_halted:
  assumes "length tbl \<le> step s" and "sg \<noteq> Reset"
  shows "\<exists>b. fire tbl sg s = s\<lparr>isPlaying := b\<rparr>"
proof (cases sg)
  case Tick
  then show ?thesis using assms(1) by (auto simp: tick_out_of_range)
next
  case PlayPause
  then show ?thesis by (auto simp: playPause_def)
next
  case Reset
  then show ?thesis using assms(2) by simp
qed

lemma run_halted:
  "length tbl \<le> step s \<Longrightarrow> Reset \<notin> set sigs \<Longrightarrow> \<exists>b. run tbl sigs s = s\<lparr>isPlaying := b\<rparr>"
proof (induction sigs arbitrary: s)
  case Nil
  have "run tbl [] s = s\<lparr>isPlaying := isPlaying s\<rparr>" by (simp add: run_Nil)
  then show ?case by blast
next
  case (Cons sg sigs)
  then have "sg \<noteq> Reset" by auto
  with Cons.prems(1) obtain b where b: "fire tbl sg s = s\<lparr>isPlaying := b\<rparr>"
    using fire_halted by blast
  have "length tbl \<le> step (s\<lparr>isPlaying := b\<rparr>)" using Cons.prems(1) by simp
  moreover have "Reset \<notin> set sigs" using Cons.prems(2) by simp
  ultimately obtain b' where "run tbl sigs (s\<lparr>isPlaying := b\<rparr>) = s\<lparr>isPlaying := b\<rparr>\<lparr>isPlaying := b'\<rparr>"
    using Cons.IH by blast
  then have "run tbl (sg # sigs) s = s\<lparr>isPlaying := b'\<rparr>"
    by (simp add: run_Cons b)
  then show ?case by blast
qed

lemma funpow_tick_halted:
  "length tbl \<le> step s \<Longrightarrow> \<exists>b. (tick tbl ^^ n) s = s\<lparr>isPlaying := b\<rparr>"
proof (induction n)
  case 0
  have "(tick tbl ^^ 0) s = s\<lparr>isPlaying := isPlaying s\<rparr>" by simp
  then show ?case by blast
next
  case (Suc n)
  then obtain b where b: "(tick tbl ^^ n) s = s\<lparr>isPlaying := b\<rparr>" by blast
  have "(tick tbl ^^ Suc n) s = tick tbl (s\<lparr>isPlaying := b\<rparr>)"
    by (simp add: b)
  also have "\<dots> = s\<lparr>isPlaying := False\<rparr>"
    using Suc.prems by (simp add: tick_out_of_range)
  finally show ?case by blast
qed

lemma unchangedExecution_isPlaying: "unchangedExecution s (s\<lparr>isPlaying := b\<rparr>)"
  by (simp add: unchangedExecution_def)

lemma run_ticks: "run tbl (replicate n Tick) s = (tick tbl ^^ n) s"
proof -
  have "fire tbl Tick = tick tbl" by (rule ext) simp
  then show ?thesis by (simp add: run_def fold_replicate)
qed

section \<open>Reachable states lie on the table\<close>

lemma onTable_initialState: "onTable tbl initialState"
  by (simp add: onTable_def initialState_def)

lemma onTable_fire:
  assumes kp: "list_all keepsPlayer tbl" and inv: "onTable tbl s"
  shows "onTable tbl (fire tbl sg s)"
proof (cases sg)
  case Tick
  show ?thesis
  proof (cases "isPlaying s \<and> step s < length tbl")
    case True
    let ?k = "step s"
    have s: "s = (tabulated tbl ?k)\<lparr>isPlaying := isPlaying s, step := ?k\<rparr>"
      using inv by (simp add: onTable_def)
    have "(tbl ! ?k) s = ((tbl ! ?k) (tabulated tbl ?k))\<lparr>isPlaying := isPlaying s, step := ?k\<rparr>"
      by (subst s) (use True kp in \<open>simp add: keepsPlayer_nth\<close>)
    then have "tick tbl s = (tabulated tbl (Suc ?k))\<lparr>isPlaying := isPlaying s, step := Suc ?k\<rparr>"
      using True by (simp add: tick_playing_in_range)
    then show ?thesis
      using Tick True by (simp add: onTable_def)
  next
    case False
    then have "\<not> isPlaying s \<or> length tbl \<le> step s" by auto
    then have "\<exists>b. tick tbl s = s\<lparr>isPlaying := b\<rparr>"
    proof
      assume "\<not> isPlaying s"
      then have "tick tbl s = s\<lparr>isPlaying := isPlaying s\<rparr>" by (simp add: tick_not_playing)
      then show ?thesis by blast
    next
      assume "length tbl \<le> step s"
      then show ?thesis using tick_out_of_range by blast
    qed
    then obtain b where b: "tick tbl s = s\<lparr>isPlaying := b\<rparr>" by blast
    have "s\<lparr>isPlaying := b\<rparr> = (tabulated tbl (step s))\<lparr>isPlaying := b, step := step s\<rparr>"
      using inv by (subst onTable_def [THEN iffD1, THEN conjunct2, OF inv]) simp
    then show ?thesis
      using Tick inv by (simp add: b onTable_def)
  qed
next
  case PlayPause
  have "s\<lparr>isPlaying := \<not> isPlaying s\<rparr> = (tabulated tbl (step s))\<lparr>isPlaying := \<not> isPlaying s, step := step s\<rparr>"
    by (subst onTable_def [THEN iffD1, THEN conjunct2, OF inv]) simp
  then show ?thesis
    using PlayPause inv by (simp add: playPause_def onTable_def)
next
  case Reset
  have "resetState s = initialState"
    by (simp add: resetState_def initialState_def)
  then show ?thesis
    using Reset by (simp add: onTable_initialState)
qed

lemma onTable_run:
  "list_all keepsPlayer tbl \<Longrightarrow> onTable tbl s \<Longrightarrow> onTable tbl (run tbl sigs s)"
  by (induction sigs arbitrary: s) (simp_all add: run_Nil run_Cons onTable_fire)

lemma withinBounds_player [simp]:
  "withinBounds (s\<lparr>isPlaying := b, step := k\<rparr>) = withinBounds s"
  by (simp add: withinBounds_def)

lemma tabulated_A_bounds_all: "list_all (\<lambda>i. withinBounds (tabulated steps_A i)) [0..<14]"
  by code_simp

lemma tabulated_B_bounds_all: "list_all (\<lambda>i. withinBounds (tabulated steps_B i)) [0..<13]"
  by code_simp

lemma tabulated_A_bounds: "i \<le> length steps_A \<Longrightarrow> withinBounds (tabulated steps_A i)"
  using tabulated_A_bounds_all by (simp add: list_all_iff length_steps_A)

lemma tabulated_B_bounds: "i \<le> length steps_B \<Longrightarrow> withinBounds (tabulated steps_B i)"
  using tabulated_B_bounds_all by (simp add: list_all_iff length_steps_B)

lemma onTable_bounds_A:
  assumes inv: "onTable steps_A s"
  shows "withinBounds s"
proof -
  have le: "step s \<le> length steps_A"
    and eq: "s = (tabulated steps_A (step s))\<lparr>isPlaying := isPlaying s, step := step s\<rparr>"
    using inv by (simp_all add: onTable_def)
  have "withinBounds (tabulated steps_A (step s))"
    using le by (rule tabulated_A_bounds)
  then have "withinBounds ((tabulated steps_A (step s))\<lparr>isPlaying := isPlaying s, step := step s\<rparr>)"
    by simp
  then show ?thesis
    by (subst eq)
qed

lemma onTable_bounds_B:
  assumes inv: "onTable steps_B s"
  shows "withinBounds s"
proof -
  have le: "step s \<le> length steps_B"
    and eq: "s = (tabulated steps_B (step s))\<lparr>isPlaying := isPlaying s, step := step s\<rparr>"
    using inv by (simp_all add: onTable_def)
  have "withinBounds (tabulated steps_B (step s))"
    using le by (rule tabulated_B_bounds)
  then have "withinBounds ((tabulated steps_B (step s))\<lparr>isPlaying := isPlaying s, step := step s\<rparr>)"
    by simp
  then show ?thesis
    by (subst eq)
qed

section \<open>The console output only grows\<close>

lemma appendsToConsole_prefix:
  "appendsToConsole t \<Longrightarrow> prefix (consoleOutput s) (consoleOutput (t s))"
  by (auto simp: appendsToConsole_def)

lemma tick_console_prefix:
  assumes "list_all appendsToConsole tbl"
  shows "prefix (consoleOutput s) (consoleOutput (tick tbl s))"
proof (cases "isPlaying s \<and> step s < length tbl")
  case True
  then have "appendsToConsole (tbl ! step s)"
    using assms by (simp add: list_all_length)
  then have "prefix (consoleOutput s) (consoleOutput ((tbl ! step s) s))"
    by (rule appendsToConsole_prefix)
  then show ?thesis
    using True by (simp add: tick_playing_in_range)
next
  case False
  then show ?thesis
    by (auto simp: tick_def timerHandler_def)
qed

lemma funpow_tick_console_prefix:
  assumes "list_all appendsToConsole tbl"
  shows "prefix (consoleOutput s) (consoleOutput ((tick tbl ^^ n) s))"
proof (induction n)
  case 0
  show ?case by simp
next
  case (Suc n)
  have "prefix (consoleOutput ((tick tbl ^^ n) s)) (consoleOutput ((tick tbl ^^ Suc n) s))"
    using tick_console_prefix [OF assms] by simp
  with Suc show ?case
    by (rule prefix_order.trans)
qed

lemma ticks_console_monotone:
  assumes "list_all appendsToConsole tbl" and "m \<le> n"
  shows "prefix (consoleOutput ((tick tbl ^^ m) s)) (consoleOutput ((tick tbl ^^ n) s))"
proof -
  have "(tick tbl ^^ n) s = (tick tbl ^^ (n - m)) ((tick tbl ^^ m) s)"
    using assms(2) by (simp add: funpow_add [symmetric, unfolded o_def, THEN fun_cong])
  then show ?thesis
    using funpow_tick_console_prefix [OF assms(1)] by simp
qed

lemma fire_console_prefix:
  assumes "list_all appendsToConsole tbl" and "sg \<noteq> Reset"
  shows "prefix (consoleOutput s) (consoleOutput (fire tbl sg s))"
  using assms by (cases sg) (simp_all add: tick_console_prefix playPause_def)

lemma run_console_prefix:
  "list_all appendsToConsole tbl \<Longrightarrow> Reset \<notin> set sigs \<Longrightarrow>
   prefix (consoleOutput s) (consoleOutput (run tbl sigs s))"
proof (induction sigs arbitrary: s)
  case Nil
  show ?case by (simp add: run_Nil)
next
  case (Cons sg sigs)
  then have "sg \<noteq> Reset" by auto
  with Cons.prems(1) have "prefix (consoleOutput s) (consoleOutput (fire tbl sg s))"
    by (rule fire_console_prefix)
  moreover have "prefix (consoleOutput (fire tbl sg s)) (consoleOutput (run tbl sigs (fire tbl sg s)))"
    using Cons by simp
  ultimately show ?case
    unfolding run_Cons by (rule prefix_order.trans)
qed

section \<open>What the result of a closure depends on\<close>

lemma positional_noninterference:
  assumes "positional t"
  shows "callStack s1 = callStack s2 \<Longrightarrow> callStack (t s1) = callStack (t s2)"
    and "lookingAt s1 = lookingAt s2 \<Longrightarrow> lookingAt (t s1) = lookingAt (t s2)"
    and "microtaskQueue s1 = microtaskQueue s2 \<Longrightarrow> microtaskQueue (t s1) = microtaskQueue (t s2)"
    and "callbackQueue s1 = callbackQueue s2 \<Longrightarrow> callbackQueue (t s1) = callbackQueue (t s2)"
    and "consoleOutput s1 = consoleOutput s2 \<Longrightarrow> consoleOutput (t s1) = consoleOutput (t s2)"
  using assms
  by (auto simp: positional_def writesConstantOrKeeps_def clearsAppendsOrKeeps_def)

section \<open>The claims\<close>

text \<open>
  C1. Replaying the table from a cold start (the initial all-empty state with the play
  button pressed): after 2 ticks the console output is exactly \<open>["Start"]\<close> and the focus
  is on the stack; after 5 ticks each queue holds exactly one entry; after as many ticks
  as the table has entries (13 in the first component, 12 in the second) the console
  output is exactly \<open>["Start", "End", "Promise", "Timeout"]\<close> and the call stack and
  both queues are empty.
\<close>

theorem concrete_scenario:
  \<open>consoleOutput ((tick_A ^^ 2) coldStart) = [''Start''] \<and>
   lookingAt ((tick_A ^^ 2) coldStart) = stack \<and>
   length (microtaskQueue ((tick_A ^^ 5) coldStart)) = 1 \<and>
   length (callbackQueue ((tick_A ^^ 5) coldStart)) = 1 \<and>
   length steps_A = 13 \<and>
   consoleOutput ((tick_A ^^ 13) coldStart) = [''Start'', ''End'', ''Promise'', ''Timeout''] \<and>
   callStack ((tick_A ^^ 13) coldStart) = [] \<and>
   microtaskQueue ((tick_A ^^ 13) coldStart) = [] \<and>
   callbackQueue ((tick_A ^^ 13) coldStart) = [] \<and>
   consoleOutput ((tick_B ^^ 2) coldStart) = [''Start''] \<and>
   lookingAt ((tick_B ^^ 2) coldStart) = stack \<and>
   length (microtaskQueue ((tick_B ^^ 5) coldStart)) = 1 \<and>
   length (callbackQueue ((tick_B ^^ 5) coldStart)) = 1 \<and>
   length steps_B = 12 \<and>
   consoleOutput ((tick_B ^^ 12) coldStart) = [''Start'', ''End'', ''Promise'', ''Timeout''] \<and>
   callStack ((tick_B ^^ 12) coldStart) = [] \<and>
   microtaskQueue ((tick_B ^^ 12) coldStart) = [] \<and>
   callbackQueue ((tick_B ^^ 12) coldStart) = []\<close>
proof -
  have a2: "(tick_A ^^ 2) coldStart = (tabulated steps_A 2)\<lparr>isPlaying := True, step := 2\<rparr>"
    and a5: "(tick_A ^^ 5) coldStart = (tabulated steps_A 5)\<lparr>isPlaying := True, step := 5\<rparr>"
    and a13: "(tick_A ^^ 13) coldStart = (tabulated steps_A 13)\<lparr>isPlaying := True, step := 13\<rparr>"
    by (simp_all add: ticks_A)
  have b2: "(tick_B ^^ 2) coldStart = (tabulated steps_B 2)\<lparr>isPlaying := True, step := 2\<rparr>"
    and b5: "(tick_B ^^ 5) coldStart = (tabulated steps_B 5)\<lparr>isPlaying := True, step := 5\<rparr>"
    and b12: "(tick_B ^^ 12) coldStart = (tabulated steps_B 12)\<lparr>isPlaying := True, step := 12\<rparr>"
    by (simp_all add: ticks_B)
  have A2: "consoleOutput (tabulated steps_A 2) = [''Start'']"
    "lookingAt (tabulated steps_A 2) = stack"
    by code_simp+
  have A5: "length (microtaskQueue (tabulated steps_A 5)) = 1"
    "length (callbackQueue (tabulated steps_A 5)) = 1"
    by code_simp+
  have A13: "consoleOutput (tabulated steps_A 13) = [''Start'', ''End'', ''Promise'', ''Timeout'']"
    "callStack (tabulated steps_A 13) = []" "microtaskQueue (tabulated steps_A 13) = []"
    "callbackQueue (tabulated steps_A 13) = []"
    by code_simp+
  have B2: "consoleOutput (tabulated steps_B 2) = [''Start'']"
    "lookingAt (tabulated steps_B 2) = stack"
    by code_simp+
  have B5: "length (microtaskQueue (tabulated steps_B 5)) = 1"
    "length (callbackQueue (tabulated steps_B 5)) = 1"
    by code_simp+
  have B12: "consoleOutput (tabulated steps_B 12) = [''Start'', ''End'', ''Promise'', ''Timeout'']"
    "callStack (tabulated steps_B 12) = []" "microtaskQueue (tabulated steps_B 12) = []"
    "callbackQueue (tabulated steps_B 12) = []"
    by code_simp+
  show ?thesis
    unfolding a2 a5 a13 b2 b5 b12
    by (simp add: A2 A5 A13 B2 B5 B12 length_steps_A length_steps_B)
qed

text \<open>
  C2. For every step index \<open>i\<close> up to the length of the table, \<open>i\<close> ticks of the timer
  from a cold start reach the state tabulated for \<open>i\<close>, with the step index at \<open>i\<close>.
  The timer is a function of the state, so the replay is deterministic.
\<close>

theorem replay_reaches_tabulated:
  "(i \<le> length steps_A \<longrightarrow>
      (tick_A ^^ i) coldStart = (tabulated steps_A i)\<lparr>isPlaying := True, step := i\<rparr>) \<and>
   (j \<le> length steps_B \<longrightarrow>
      (tick_B ^^ j) coldStart = (tabulated steps_B j)\<lparr>isPlaying := True, step := j\<rparr>)"
  by (simp add: ticks_A ticks_B length_steps_A length_steps_B)

theorem replay_reaches_tabulated_witness:
  \<open>(5::nat) \<le> length steps_A \<and>
   (tick_A ^^ 5) coldStart =
     \<lparr>isPlaying = True, step = 5, callStack = [''Global Execution Context''],
      microtaskQueue = [''() => console.log("Promise")''],
      callbackQueue = [''() => console.log("Timeout")''],
      consoleOutput = [''Start''], lookingAt = microtask\<rparr> \<and>
   (12::nat) \<le> length steps_B \<and>
   (tick_B ^^ 12) coldStart =
     \<lparr>isPlaying = True, step = 12, callStack = [],
      microtaskQueue = [], callbackQueue = [],
      consoleOutput = [''Start'', ''End'', ''Promise'', ''Timeout''], lookingAt = stack\<rparr>\<close>
proof -
  have A: \<open>tabulated steps_A 5 =
     \<lparr>isPlaying = False, step = 0, callStack = [''Global Execution Context''],
      microtaskQueue = [''() => console.log("Promise")''],
      callbackQueue = [''() => console.log("Timeout")''],
      consoleOutput = [''Start''], lookingAt = microtask\<rparr>\<close>
    by (simp add: eval_nat_numeral steps_A_def initialState_def)
  have B: \<open>tabulated steps_B 12 =
     \<lparr>isPlaying = False, step = 0, callStack = [],
      microtaskQueue = [], callbackQueue = [],
      consoleOutput = [''Start'', ''End'', ''Promise'', ''Timeout''], lookingAt = stack\<rparr>\<close>
    by (simp add: eval_nat_numeral steps_B_def initialState_def)
  show ?thesis
    using replay_reaches_tabulated [of 5 12]
    by (simp add: length_steps_A length_steps_B A B)
qed

text \<open>
  C3. While playing and below the length of the table, a tick applies exactly the
  entry at the current step index and adds exactly 1 to the index. Whatever happens
  (a tick or a button), the index stays, or a tick of that kind adds 1, or a reset sets
  it to 0. Once the index has reached the length of the table, no sequence of ticks and
  play/pause presses changes the Execution State or the index: only a reset leaves
  that state, and it sets the index to 0.
\<close>

theorem step_index_discipline:
  "(isPlaying s \<and> step s < length steps_A \<longrightarrow>
      tick_A s = ((steps_A ! step s) s)\<lparr>step := step s + 1\<rparr> \<and>
      step (tick_A s) = step s + 1) \<and>
   (step (fire steps_A sg s) = step s \<or>
    sg = Tick \<and> isPlaying s \<and> step s < length steps_A \<and>
      step (fire steps_A sg s) = step s + 1 \<or>
    sg = Reset \<and> step (fire steps_A sg s) = 0) \<and>
   (length steps_A \<le> step h \<and> Reset \<notin> set sigs \<longrightarrow>
      unchangedExecution h (run steps_A sigs h)) \<and>
   (isPlaying s' \<and> step s' < length steps_B \<longrightarrow>
      tick_B s' = ((steps_B ! step s') s')\<lparr>step := step s' + 1\<rparr> \<and>
      step (tick_B s') = step s' + 1) \<and>
   (step (fire steps_B sg s') = step s' \<or>
    sg = Tick \<and> isPlaying s' \<and> step s' < length steps_B \<and>
      step (fire steps_B sg s') = step s' + 1 \<or>
    sg = Reset \<and> step (fire steps_B sg s') = 0) \<and>
   (length steps_B \<le> step h' \<and> Reset \<notin> set sigs \<longrightarrow>
      unchangedExecution h' (run steps_B sigs h')) \<and>
   step (resetState h) = 0"
proof -
  have tickA: "isPlaying s \<and> step s < length steps_A \<longrightarrow>
      tick_A s = ((steps_A ! step s) s)\<lparr>step := step s + 1\<rparr> \<and> step (tick_A s) = step s + 1"
    unfolding tick_A_def by (simp add: tick_playing_in_range)
  have tickB: "isPlaying s' \<and> step s' < length steps_B \<longrightarrow>
      tick_B s' = ((steps_B ! step s') s')\<lparr>step := step s' + 1\<rparr> \<and> step (tick_B s') = step s' + 1"
    unfolding tick_B_def by (simp add: tick_playing_in_range)
  have fireA: "step (fire steps_A sg s) = step s \<or>
    sg = Tick \<and> isPlaying s \<and> step s < length steps_A \<and>
      step (fire steps_A sg s) = step s + 1 \<or>
    sg = Reset \<and> step (fire steps_A sg s) = 0"
    by (simp add: fire_step [OF keepsPlayer_steps_A])
  have fireB: "step (fire steps_B sg s') = step s' \<or>
    sg = Tick \<and> isPlaying s' \<and> step s' < length steps_B \<and>
      step (fire steps_B sg s') = step s' + 1 \<or>
    sg = Reset \<and> step (fire steps_B sg s') = 0"
    by (simp add: fire_step [OF keepsPlayer_steps_B])
  have halt: "length tbl \<le> step x \<and> Reset \<notin> set sigs \<longrightarrow>
      unchangedExecution x (run tbl sigs x)" for tbl x
  proof
    assume "length tbl \<le> step x \<and> Reset \<notin> set sigs"
    then obtain b where "run tbl sigs x = x\<lparr>isPlaying := b\<rparr>"
      using run_halted by blast
    then show "unchangedExecution x (run tbl sigs x)"
      by (simp add: unchangedExecution_isPlaying)
  qed
  have reset: "step (resetState h) = 0"
    by (simp add: resetState_def)
  from tickA fireA halt [of steps_A h] tickB fireB halt [of steps_B h'] reset
  show ?thesis by blast
qed

theorem step_index_discipline_witness:
  "isPlaying coldStart \<and> step coldStart < length steps_A \<and>
   step (tick_A coldStart) = 1 \<and>
   callStack (tick_A coldStart) = [''Global Execution Context''] \<and>
   length steps_A \<le> step ((tick_A ^^ 13) coldStart) \<and>
   Reset \<notin> set [Tick, PlayPause, Tick] \<and>
   unchangedExecution ((tick_A ^^ 13) coldStart)
     (run steps_A [Tick, PlayPause, Tick] ((tick_A ^^ 13) coldStart)) \<and>
   step coldStart < length steps_B \<and>
   step (tick_B coldStart) = 1 \<and>
   callStack (tick_B coldStart) = [''Global Execution Context''] \<and>
   length steps_B \<le> step ((tick_B ^^ 12) coldStart) \<and>
   unchangedExecution ((tick_B ^^ 12) coldStart)
     (run steps_B [Tick, PlayPause, Tick] ((tick_B ^^ 12) coldStart))"
proof -
  have cs: "isPlaying coldStart" "step coldStart = 0"
    by (simp_all add: coldStart_def playPause_def initialState_def)
  have endA: "step ((tick_A ^^ 13) coldStart) = 13"
    by (simp add: ticks_A)
  have endB: "step ((tick_B ^^ 12) coldStart) = 12"
    by (simp add: ticks_B)
  have firstA: "callStack ((steps_A ! 0) coldStart) = [''Global Execution Context'']"
    by (simp add: steps_A_def)
  have firstB: "callStack ((steps_B ! 0) coldStart) = [''Global Execution Context'']"
    by (simp add: steps_B_def)
  show ?thesis
    using step_index_discipline
      [where s = coldStart and s' = coldStart and sg = Tick
         and sigs = "[Tick, PlayPause, Tick]"
         and h = "(tick_A ^^ 13) coldStart" and h' = "(tick_B ^^ 12) coldStart"]
    by (simp add: cs endA endB firstA firstB length_steps_A length_steps_B)
qed

text \<open>
  C4. When the timer fires with the step index out of range (at or beyond the length
  of the table), it only signals completion: \<open>isPlaying\<close> becomes false, and the call
  stack, both queues, the console output, the focus indicator and the step index keep
  their values. The result is an ordinary state: nothing is raised.
\<close>

theorem out_of_range_signals_completion:
  "(length steps_A \<le> step s \<longrightarrow>
      timerHandler steps_A s = s\<lparr>isPlaying := False\<rparr> \<and>
      \<not> isPlaying (timerHandler steps_A s) \<and>
      unchangedExecution s (timerHandler steps_A s)) \<and>
   (length steps_B \<le> step s' \<longrightarrow>
      timerHandler steps_B s' = s'\<lparr>isPlaying := False\<rparr> \<and>
      \<not> isPlaying (timerHandler steps_B s') \<and>
      unchangedExecution s' (timerHandler steps_B s'))"
  by (simp add: timerHandler_out_of_range unchangedExecution_isPlaying)

theorem out_of_range_signals_completion_witness:
  "length steps_A \<le> step ((tick_A ^^ 13) coldStart) \<and>
   isPlaying ((tick_A ^^ 13) coldStart) \<and>
   \<not> isPlaying (timerHandler steps_A ((tick_A ^^ 13) coldStart)) \<and>
   unchangedExecution ((tick_A ^^ 13) coldStart)
     (timerHandler steps_A ((tick_A ^^ 13) coldStart)) \<and>
   length steps_B \<le> step ((tick_B ^^ 12) coldStart) \<and>
   isPlaying ((tick_B ^^ 12) coldStart) \<and>
   \<not> isPlaying (timerHandler steps_B ((tick_B ^^ 12) coldStart)) \<and>
   unchangedExecution ((tick_B ^^ 12) coldStart)
     (timerHandler steps_B ((tick_B ^^ 12) coldStart))"
proof -
  have endA: "step ((tick_A ^^ 13) coldStart) = 13" "isPlaying ((tick_A ^^ 13) coldStart)"
    by (simp_all add: ticks_A)
  have endB: "step ((tick_B ^^ 12) coldStart) = 12" "isPlaying ((tick_B ^^ 12) coldStart)"
    by (simp_all add: ticks_B)
  show ?thesis
    using out_of_range_signals_completion
      [of "(tick_A ^^ 13) coldStart" "(tick_B ^^ 12) coldStart"]
    by (simp add: endA endB length_steps_A length_steps_B unchangedExecution_isPlaying)
qed

text \<open>
  C5. Once the step index has reached the length of the table, any number of further
  ticks leaves the call stack, both queues, the console output, the focus indicator
  and the step index as they were.
\<close>

theorem terminal_state_stable:
  "(length steps_A \<le> step s \<longrightarrow> unchangedExecution s ((tick_A ^^ n) s)) \<and>
   (length steps_B \<le> step s' \<longrightarrow> unchangedExecution s' ((tick_B ^^ n) s'))"
proof -
  have "length tbl \<le> step x \<longrightarrow> unchangedExecution x ((tick tbl ^^ n) x)" for tbl x
  proof
    assume "length tbl \<le> step x"
    then obtain b where "(tick tbl ^^ n) x = x\<lparr>isPlaying := b\<rparr>"
      using funpow_tick_halted by blast
    then show "unchangedExecution x ((tick tbl ^^ n) x)"
      by (simp add: unchangedExecution_isPlaying)
  qed
  then show ?thesis
    by (simp add: tick_A_def tick_B_def)
qed

theorem terminal_state_stable_witness:
  \<open>length steps_A \<le> step ((tick_A ^^ 13) coldStart) \<and>
   consoleOutput ((tick_A ^^ 3) ((tick_A ^^ 13) coldStart)) =
     [''Start'', ''End'', ''Promise'', ''Timeout''] \<and>
   step ((tick_A ^^ 3) ((tick_A ^^ 13) coldStart)) = 13 \<and>
   length steps_B \<le> step ((tick_B ^^ 12) coldStart) \<and>
   consoleOutput ((tick_B ^^ 3) ((tick_B ^^ 12) coldStart)) =
     [''Start'', ''End'', ''Promise'', ''Timeout''] \<and>
   step ((tick_B ^^ 3) ((tick_B ^^ 12) coldStart)) = 12\<close>
proof -
  have endA: "step ((tick_A ^^ 13) coldStart) = 13"
    by (simp add: ticks_A)
  have endB: "step ((tick_B ^^ 12) coldStart) = 12"
    by (simp add: ticks_B)
  have "consoleOutput (tabulated steps_A 13) = [''Start'', ''End'', ''Promise'', ''Timeout'']"
    by code_simp
  then have outA: "consoleOutput ((tick_A ^^ 13) coldStart) =
      [''Start'', ''End'', ''Promise'', ''Timeout'']"
    by (simp add: ticks_A)
  have "consoleOutput (tabulated steps_B 12) = [''Start'', ''End'', ''Promise'', ''Timeout'']"
    by code_simp
  then have outB: "consoleOutput ((tick_B ^^ 12) coldStart) =
      [''Start'', ''End'', ''Promise'', ''Timeout'']"
    by (simp add: ticks_B)
  show ?thesis
    using terminal_state_stable
      [of "(tick_A ^^ 13) coldStart" 3 "(tick_B ^^ 12) coldStart"]
    unfolding unchangedExecution_def
    by (simp add: endA endB outA outB length_steps_A length_steps_B)
qed

text \<open>
  C6. A reset from any state (any step index, any stack, queues and console output,
  playing or not) gives the initial configuration: step index 0, empty call stack,
  empty queues, empty console output, and not playing.
\<close>

theorem reset_gives_initial:
  "resetState s = initialState \<and>
   fire tbl Reset s = initialState \<and>
   step (resetState s) = 0 \<and>
   callStack (resetState s) = [] \<and>
   microtaskQueue (resetState s) = [] \<and>
   callbackQueue (resetState s) = [] \<and>
   consoleOutput (resetState s) = [] \<and>
   lookingAt (resetState s) = stack \<and>
   \<not> isPlaying (resetState s)"
  by (simp add: resetState_def initialState_def)

text \<open>
  C7, as stated: every entry of the table yields, from any two prior states, the same
  value for every cell it writes. The entry at index 1 writes the console output by
  appending to it, and from two states with different console outputs the results
  differ.
\<close>

theorem append_depends_on_prior_state:
  \<open>consoleOutput ((steps_A ! 1) initialState) \<noteq> consoleOutput initialState \<and>
   consoleOutput ((steps_A ! 1) initialState) = [''Start''] \<and>
   consoleOutput ((steps_A ! 1) (initialState\<lparr>consoleOutput := [''Start'', ''End'']\<rparr>)) =
     [''Start'', ''End'', ''Start''] \<and>
   consoleOutput ((steps_A ! 1) initialState) \<noteq>
     consoleOutput ((steps_A ! 1) (initialState\<lparr>consoleOutput := [''Start'', ''End'']\<rparr>))\<close>
  by (simp add: steps_A_def initialState_def)

text \<open>
  C7, amended. No entry of the table branches on the prior state: for every step index,
  the entry gives the call stack and the focus indicator either one fixed value or the
  prior value; it gives each queue and the console output either the empty list, or the
  prior value followed by one fixed entry, or the prior value. So from two prior states
  the resulting value of a cell is the same whenever the two states agree on that same
  cell, and no cell of the result depends on another cell of the prior state.
\<close>

theorem transitions_positional:
  "(i < length steps_A \<longrightarrow>
      positional (steps_A ! i) \<and>
      (callStack s1 = callStack s2 \<longrightarrow>
         callStack ((steps_A ! i) s1) = callStack ((steps_A ! i) s2)) \<and>
      (lookingAt s1 = lookingAt s2 \<longrightarrow>
         lookingAt ((steps_A ! i) s1) = lookingAt ((steps_A ! i) s2)) \<and>
      (microtaskQueue s1 = microtaskQueue s2 \<longrightarrow>
         microtaskQueue ((steps_A ! i) s1) = microtaskQueue ((steps_A ! i) s2)) \<and>
      (callbackQueue s1 = callbackQueue s2 \<longrightarrow>
         callbackQueue ((steps_A ! i) s1) = callbackQueue ((steps_A ! i) s2)) \<and>
      (consoleOutput s1 = consoleOutput s2 \<longrightarrow>
         consoleOutput ((steps_A ! i) s1) = consoleOutput ((steps_A ! i) s2))) \<and>
   (j < length steps_B \<longrightarrow>
      positional (steps_B ! j) \<and>
      (callStack s1 = callStack s2 \<longrightarrow>
         callStack ((steps_B ! j) s1) = callStack ((steps_B ! j) s2)) \<and>
      (lookingAt s1 = lookingAt s2 \<longrightarrow>
         lookingAt ((steps_B ! j) s1) = lookingAt ((steps_B ! j) s2)) \<and>
      (microtaskQueue s1 = microtaskQueue s2 \<longrightarrow>
         microtaskQueue ((steps_B ! j) s1) = microtaskQueue ((steps_B ! j) s2)) \<and>
      (callbackQueue s1 = callbackQueue s2 \<longrightarrow>
         callbackQueue ((steps_B ! j) s1) = callbackQueue ((steps_B ! j) s2)) \<and>
      (consoleOutput s1 = consoleOutput s2 \<longrightarrow>
         consoleOutput ((steps_B ! j) s1) = consoleOutput ((steps_B ! j) s2)))"
proof -
  have A: "positional (steps_A ! i)" if "i < length steps_A"
    using positional_steps_A that by (simp add: list_all_length)
  have B: "positional (steps_B ! j)" if "j < length steps_B"
    using positional_steps_B that by (simp add: list_all_length)
  show ?thesis
    using positional_noninterference [OF A, of s1 s2]
      positional_noninterference [OF B, of s1 s2] A B
    by blast
qed

theorem transitions_positional_witness:
  \<open>(1::nat) < length steps_A \<and> positional (steps_A ! 1) \<and>
   callStack ((steps_A ! 1) initialState) =
     callStack ((steps_A ! 1) (initialState\<lparr>consoleOutput := [''Start'', ''End'']\<rparr>)) \<and>
   lookingAt ((steps_A ! 1) initialState) =
     lookingAt ((steps_A ! 1) (initialState\<lparr>consoleOutput := [''Start'', ''End'']\<rparr>)) \<and>
   consoleOutput ((steps_A ! 1) initialState) =
     consoleOutput ((steps_A ! 1) (initialState\<lparr>callStack := [''Promise callback'']\<rparr>)) \<and>
   (1::nat) < length steps_B \<and> positional (steps_B ! 1) \<and>
   consoleOutput ((steps_B ! 1) initialState) =
     consoleOutput ((steps_B ! 1) (initialState\<lparr>callStack := [''Promise callback'']\<rparr>))\<close>
  using transitions_positional
    [of 1 initialState \<open>initialState\<lparr>consoleOutput := [''Start'', ''End'']\<rparr>\<close> 1]
    transitions_positional
    [of 1 initialState \<open>initialState\<lparr>callStack := [''Promise callback'']\<rparr>\<close> 1]
  by (simp add: length_steps_A length_steps_B steps_A_def steps_B_def)

text \<open>
  C8. A press of the play/pause button while playing stops the player and changes
  nothing else: the step index, the call stack, both queues, the console output and the
  focus indicator keep their values; no tick changes the paused state; and a second
  press gives back the state that was paused, so the replay resumes where it was.
\<close>

theorem pause_keeps_position:
  "isPlaying s \<longrightarrow>
     fire tbl PlayPause s = s\<lparr>isPlaying := False\<rparr> \<and>
     \<not> isPlaying (fire tbl PlayPause s) \<and>
     unchangedExecution s (fire tbl PlayPause s) \<and>
     fire tbl Tick (fire tbl PlayPause s) = fire tbl PlayPause s \<and>
     fire tbl PlayPause (fire tbl PlayPause s) = s"
  by (simp add: playPause_def unchangedExecution_def tick_def)

theorem pause_keeps_position_witness:
  \<open>isPlaying ((tick_A ^^ 5) coldStart) \<and>
   \<not> isPlaying (fire steps_A PlayPause ((tick_A ^^ 5) coldStart)) \<and>
   step (fire steps_A PlayPause ((tick_A ^^ 5) coldStart)) = 5 \<and>
   unchangedExecution ((tick_A ^^ 5) coldStart)
     (fire steps_A PlayPause ((tick_A ^^ 5) coldStart)) \<and>
   fire steps_A PlayPause (fire steps_A PlayPause ((tick_A ^^ 5) coldStart)) =
     (tick_A ^^ 5) coldStart\<close>
proof -
  let ?s = "(tick_A ^^ 5) coldStart"
  have p: "isPlaying ?s" and k: "step ?s = 5"
    by (simp_all add: ticks_A)
  have paused: "\<not> isPlaying (fire steps_A PlayPause ?s)"
    and same: "unchangedExecution ?s (fire steps_A PlayPause ?s)"
    and resumed: "fire steps_A PlayPause (fire steps_A PlayPause ?s) = ?s"
    using pause_keeps_position [of ?s steps_A] p by blast+
  have "step (fire steps_A PlayPause ?s) = step ?s"
    using same unfolding unchangedExecution_def by blast
  then have "step (fire steps_A PlayPause ?s) = 5"
    using k by simp
  then show ?thesis
    using p paused same resumed by blast
qed

text \<open>
  C9. The console output is append-only within a run: every entry of the table leaves
  it unchanged or appends exactly one string to its end; so, from any state, the console
  output after \<open>m\<close> ticks is a prefix of the console output after \<open>n \<ge> m\<close> ticks, and
  more generally any further ticks and play/pause presses, with no reset among them,
  only extend it.
\<close>

theorem console_append_only:
  "(i < length steps_A \<longrightarrow>
      consoleOutput ((steps_A ! i) s) = consoleOutput s \<or>
      (\<exists>x. consoleOutput ((steps_A ! i) s) = consoleOutput s @ [x])) \<and>
   (m \<le> n \<longrightarrow>
      prefix (consoleOutput ((tick_A ^^ m) s)) (consoleOutput ((tick_A ^^ n) s))) \<and>
   (Reset \<notin> set sigs' \<longrightarrow>
      prefix (consoleOutput (run steps_A sigs s))
        (consoleOutput (run steps_A (sigs @ sigs') s))) \<and>
   (j < length steps_B \<longrightarrow>
      consoleOutput ((steps_B ! j) s) = consoleOutput s \<or>
      (\<exists>x. consoleOutput ((steps_B ! j) s) = consoleOutput s @ [x])) \<and>
   (m \<le> n \<longrightarrow>
      prefix (consoleOutput ((tick_B ^^ m) s)) (consoleOutput ((tick_B ^^ n) s))) \<and>
   (Reset \<notin> set sigs' \<longrightarrow>
      prefix (consoleOutput (run steps_B sigs s))
        (consoleOutput (run steps_B (sigs @ sigs') s)))"
proof -
  have entry: "consoleOutput ((tbl ! k) s) = consoleOutput s \<or>
      (\<exists>x. consoleOutput ((tbl ! k) s) = consoleOutput s @ [x])"
    if "list_all appendsToConsole tbl" and "k < length tbl" for tbl k
  proof -
    have "appendsToConsole (tbl ! k)"
      using that by (simp add: list_all_length)
    then show ?thesis
      unfolding appendsToConsole_def by blast
  qed
  have ticks: "prefix (consoleOutput ((tick tbl ^^ m) s)) (consoleOutput ((tick tbl ^^ n) s))"
    if "list_all appendsToConsole tbl" and "m \<le> n" for tbl
    using that by (rule ticks_console_monotone)
  have runs: "prefix (consoleOutput (run tbl sigs s)) (consoleOutput (run tbl (sigs @ sigs') s))"
    if "list_all appendsToConsole tbl" and "Reset \<notin> set sigs'" for tbl
    unfolding run_append using that by (rule run_console_prefix)
  show ?thesis
    using entry [OF appendsToConsole_steps_A, of i] entry [OF appendsToConsole_steps_B, of j]
      ticks [OF appendsToConsole_steps_A] ticks [OF appendsToConsole_steps_B]
      runs [OF appendsToConsole_steps_A] runs [OF appendsToConsole_steps_B]
    unfolding tick_A_def tick_B_def
    by blast
qed

theorem console_append_only_witness:
  \<open>(5::nat) < length steps_A \<and>
   consoleOutput ((steps_A ! 5) coldStart) = consoleOutput coldStart @ [''End''] \<and>
   (2::nat) \<le> 6 \<and>
   prefix (consoleOutput ((tick_A ^^ 2) coldStart)) (consoleOutput ((tick_A ^^ 6) coldStart)) \<and>
   consoleOutput ((tick_A ^^ 2) coldStart) = [''Start''] \<and>
   consoleOutput ((tick_A ^^ 6) coldStart) = [''Start'', ''End''] \<and>
   Reset \<notin> set [PlayPause, PlayPause, Tick] \<and>
   prefix (consoleOutput (run steps_A [Tick, Tick] coldStart))
     (consoleOutput (run steps_A ([Tick, Tick] @ [PlayPause, PlayPause, Tick])
        coldStart)) \<and>
   (5::nat) < length steps_B \<and>
   prefix (consoleOutput ((tick_B ^^ 2) coldStart)) (consoleOutput ((tick_B ^^ 6) coldStart))\<close>
proof -
  have entry: \<open>consoleOutput ((steps_A ! 5) coldStart) = consoleOutput coldStart @ [''End'']\<close>
    by (simp add: steps_A_def)
  have "consoleOutput (tabulated steps_A 2) = [''Start'']"
    "consoleOutput (tabulated steps_A 6) = [''Start'', ''End'']"
    by code_simp+
  then have out: "consoleOutput ((tick_A ^^ 2) coldStart) = [''Start'']"
    "consoleOutput ((tick_A ^^ 6) coldStart) = [''Start'', ''End'']"
    by (simp_all add: ticks_A)
  have A: "prefix (consoleOutput ((tick_A ^^ 2) coldStart)) (consoleOutput ((tick_A ^^ 6) coldStart))"
    "prefix (consoleOutput (run steps_A [Tick, Tick] coldStart))
     (consoleOutput (run steps_A ([Tick, Tick] @ [PlayPause, PlayPause, Tick])
        coldStart))"
    using console_append_only
      [of 5 coldStart 2 6 "[PlayPause, PlayPause, Tick]" "[Tick, Tick]" 5]
    by simp_all
  have B: "prefix (consoleOutput ((tick_B ^^ 2) coldStart)) (consoleOutput ((tick_B ^^ 6) coldStart))"
    using console_append_only
      [of 5 coldStart 2 6 "[PlayPause, PlayPause, Tick]" "[Tick, Tick]" 5]
    by simp
  show ?thesis
    using A B by (simp add: entry out length_steps_A length_steps_B)
qed

text \<open>
  C10. In every state reachable from the initial all-empty state, by any sequence of
  ticks and button presses, and so in every state of a replay from a cold start, the
  microtask queue holds at most one frame, the callback queue at most one frame and the
  call stack at most two frames, in both components.
\<close>

theorem reachable_within_bounds:
  "length (microtaskQueue (run steps_A sigs initialState)) \<le> 1 \<and>
   length (callbackQueue (run steps_A sigs initialState)) \<le> 1 \<and>
   length (callStack (run steps_A sigs initialState)) \<le> 2 \<and>
   length (microtaskQueue ((tick_A ^^ n) coldStart)) \<le> 1 \<and>
   length (callbackQueue ((tick_A ^^ n) coldStart)) \<le> 1 \<and>
   length (callStack ((tick_A ^^ n) coldStart)) \<le> 2 \<and>
   length (microtaskQueue (run steps_B sigs initialState)) \<le> 1 \<and>
   length (callbackQueue (run steps_B sigs initialState)) \<le> 1 \<and>
   length (callStack (run steps_B sigs initialState)) \<le> 2 \<and>
   length (microtaskQueue ((tick_B ^^ n) coldStart)) \<le> 1 \<and>
   length (callbackQueue ((tick_B ^^ n) coldStart)) \<le> 1 \<and>
   length (callStack ((tick_B ^^ n) coldStart)) \<le> 2"
proof -
  have A: "withinBounds (run steps_A xs initialState)" for xs
    by (rule onTable_bounds_A, rule onTable_run, rule keepsPlayer_steps_A,
        rule onTable_initialState)
  have B: "withinBounds (run steps_B xs initialState)" for xs
    by (rule onTable_bounds_B, rule onTable_run, rule keepsPlayer_steps_B,
        rule onTable_initialState)
  have cold: "(tick tbl ^^ n) coldStart = run tbl (PlayPause # replicate n Tick) initialState"
    for tbl
    by (simp add: run_Cons run_ticks coldStart_def)
  have "withinBounds (run steps_A sigs initialState)"
    "withinBounds ((tick_A ^^ n) coldStart)"
    "withinBounds (run steps_B sigs initialState)"
    "withinBounds ((tick_B ^^ n) coldStart)"
    unfolding tick_A_def tick_B_def cold by (rule A A B B)+
  then show ?thesis
    unfolding withinBounds_def by blast
qed

end
